theory Spec2Isabelle
  imports Main
begin

section \<open>Strings\<close>

text \<open>
  The program is \<^verbatim>\<open>bear.py\<close>, a static blog generator. Its Markdown engine is the three
  functions \<^verbatim>\<open>parse_markdown\<close>, \<^verbatim>\<open>escape_html\<close> and \<^verbatim>\<open>process_inline\<close>.

  A Python \<^verbatim>\<open>str\<close> is a sequence of code points. Here a string is a \<^typ>\<open>char list\<close>, and a
  \<^typ>\<open>char\<close> stands for a code point below 256. All delimiters of the engine are ASCII, and
  the two character classes that look at code points (white space of \<^verbatim>\<open>str.strip\<close>, the
  digits of \<^verbatim>\<open>\d\<close>) are written out for that range.
\<close>

definition startswith :: "string \<Rightarrow> string \<Rightarrow> bool" where
  \<comment> \<open>\<^verbatim>\<open>s.startswith(p)\<close>\<close>
  "startswith s p = (take (length p) s = p)"

fun contains :: "string \<Rightarrow> string \<Rightarrow> bool" where
  \<comment> \<open>\<^verbatim>\<open>p in s\<close>\<close>
  "contains [] p = (p = [])"
| "contains (c # cs) p = (startswith (c # cs) p \<or> contains cs p)"

fun join :: "string \<Rightarrow> string list \<Rightarrow> string" where
  \<comment> \<open>\<^verbatim>\<open>sep.join(xs)\<close>\<close>
  "join sep [] = []"
| "join sep [x] = x"
| "join sep (x # y # ys) = x @ sep @ join sep (y # ys)"

definition replace_char :: "char \<Rightarrow> string \<Rightarrow> string \<Rightarrow> string" where
  \<comment> \<open>\<^verbatim>\<open>s.replace(c, new)\<close> for a one-character \<^verbatim>\<open>c\<close>\<close>
  "replace_char c new s = concat (map (\<lambda>x. if x = c then new else [x]) s)"

definition isspace :: "char \<Rightarrow> bool" where
  \<comment> \<open>\<^verbatim>\<open>str.isspace\<close> on code points below 256: 9 to 13, 28 to 32, 133 and 160\<close>
  "isspace c = (let n = of_char c :: nat in
     (9 \<le> n \<and> n \<le> 13) \<or> (28 \<le> n \<and> n \<le> 32) \<or> n = 133 \<or> n = 160)"

definition strip :: "string \<Rightarrow> string" where
  \<comment> \<open>\<^verbatim>\<open>s.strip()\<close>\<close>
  "strip s = rev (dropWhile isspace (rev (dropWhile isspace s)))"

definition isdigit :: "char \<Rightarrow> bool" where
  \<comment> \<open>the class \<^verbatim>\<open>\d\<close> on code points below 256\<close>
  "isdigit c = (let n = of_char c :: nat in 48 \<le> n \<and> n \<le> 57)"

definition isalpha_ascii :: "char \<Rightarrow> bool" where
  \<comment> \<open>the class \<^verbatim>\<open>[a-zA-Z]\<close>\<close>
  "isalpha_ascii c = (let n = of_char c :: nat in
     (65 \<le> n \<and> n \<le> 90) \<or> (97 \<le> n \<and> n \<le> 122))"

section \<open>Regular expression substitution\<close>

text \<open>
  \<^verbatim>\<open>re.sub(pattern, template, text)\<close> scans \<^verbatim>\<open>text\<close> from the left. At each position it
  tries the pattern; on a match it emits the template filled with the groups and goes on
  after the match, otherwise it copies one character and moves one position to the right.
  A matcher gets the character before the position (for a lookbehind) and the text from
  the position on; it returns the groups and the text after the match. An empty match
  (the text after it is not shorter) emits the template, copies one character and moves
  on, as Python does.
\<close>

type_synonym 'g matcher = "char option \<Rightarrow> string \<Rightarrow> ('g \<times> string) option"

function re_sub :: "'g matcher \<Rightarrow> ('g \<Rightarrow> string) \<Rightarrow> char option \<Rightarrow> string \<Rightarrow> string" where
  "re_sub m repl prev [] = (case m prev [] of None \<Rightarrow> [] | Some (g, rest) \<Rightarrow> repl g)"
| "re_sub m repl prev (c # cs) =
     (case m prev (c # cs) of
        None \<Rightarrow> c # re_sub m repl (Some c) cs
      | Some (g, rest) \<Rightarrow>
          if length rest < length (c # cs)
          then repl g @ re_sub m repl (Some ((c # cs) ! (length cs - length rest))) rest
          else repl g @ c # re_sub m repl (Some c) cs)"
  by pat_completeness auto
termination
  by (relation "measure (\<lambda>(m, repl, prev, s). length s)") auto

text \<open>
  The patterns of \<^verbatim>\<open>process_inline\<close>. Each group is a greedy run over a negated class
  followed by a literal that starts with the excluded character, so the run is the
  longest one (a shorter run would be followed by a character of the class, not by the
  literal) and backtracking never finds a second way to match.
\<close>

definition match_brackets :: "bool \<Rightarrow> string \<Rightarrow> ((string \<times> string) \<times> string) option" where
  \<comment> \<open>\<^verbatim>\<open>\[([^\]]*)\]\(([^)]+)\)\<close> when the flag is set, \<^verbatim>\<open>\[([^\]]+)\]\(([^)]+)\)\<close> otherwise\<close>
  "match_brackets allow_empty s =
     (case s of
        [] \<Rightarrow> None
      | c # r \<Rightarrow>
          if c \<noteq> CHR ''['' then None
          else let g1 = takeWhile (\<lambda>x. x \<noteq> CHR '']'') r;
                   r1 = dropWhile (\<lambda>x. x \<noteq> CHR '']'') r
               in if g1 = [] \<and> \<not> allow_empty then None
                  else if \<not> startswith r1 '']('' then None
                  else let r2 = drop 2 r1;
                           g2 = takeWhile (\<lambda>x. x \<noteq> CHR '')'') r2;
                           r3 = dropWhile (\<lambda>x. x \<noteq> CHR '')'') r2
                       in if g2 = [] then None
                          else if \<not> startswith r3 '')'' then None
                          else Some ((g1, g2), drop 1 r3))"

definition match_image :: "(string \<times> string) matcher" where
  \<comment> \<open>\<^verbatim>\<open>!\[([^\]]*)\]\(([^)]+)\)\<close>\<close>
  "match_image prev s =
     (case s of [] \<Rightarrow> None
      | c # r \<Rightarrow> if c = CHR ''!'' then match_brackets True r else None)"

definition match_link :: "(string \<times> string) matcher" where
  \<comment> \<open>\<^verbatim>\<open>\[([^\]]+)\]\(([^)]+)\)\<close>\<close>
  "match_link prev s = match_brackets False s"

definition match_span :: "string \<Rightarrow> char \<Rightarrow> string matcher" where
  \<comment> \<open>\<^verbatim>\<open>d([^x]+)d\<close> for a delimiter \<^verbatim>\<open>d\<close> made of the character \<^verbatim>\<open>x\<close>\<close>
  "match_span d x prev s =
     (if \<not> startswith s d then None
      else let r = drop (length d) s;
               g = takeWhile (\<lambda>y. y \<noteq> x) r;
               r1 = dropWhile (\<lambda>y. y \<noteq> x) r
           in if g = [] then None
              else if \<not> startswith r1 d then None
              else Some (g, drop (length d) r1))"

definition match_em_underscore :: "string matcher" where
  \<comment> \<open>\<^verbatim>\<open>(?<![a-zA-Z])_([^_]+)_(?![a-zA-Z])\<close>\<close>
  "match_em_underscore prev s =
     (if (case prev of None \<Rightarrow> False | Some p \<Rightarrow> isalpha_ascii p) then None
      else case match_span ''_'' CHR ''_'' prev s of
             None \<Rightarrow> None
           | Some (g, rest) \<Rightarrow>
               (case rest of
                  [] \<Rightarrow> Some (g, rest)
                | n # _ \<Rightarrow> if isalpha_ascii n then None else Some (g, rest)))"

definition wrap :: "string \<Rightarrow> string \<Rightarrow> string \<Rightarrow> string" where
  "wrap open_tag close_tag g = open_tag @ g @ close_tag"

definition img_template :: "string \<times> string \<Rightarrow> string" where
  \<comment> \<open>the template \<^verbatim>\<open><img src="\2" alt="\1">\<close>\<close>
  \<open>img_template g = ''<img src="'' @ snd g @ ''" alt="'' @ fst g @ ''">''\<close>

definition link_template :: "string \<times> string \<Rightarrow> string" where
  \<comment> \<open>the template \<^verbatim>\<open><a href="\2">\1</a>\<close>\<close>
  \<open>link_template g = ''<a href="'' @ snd g @ ''">'' @ fst g @ ''</a>''\<close>

definition sub_image :: "string \<Rightarrow> string" where
  "sub_image text = re_sub match_image img_template None text"

definition sub_link :: "string \<Rightarrow> string" where
  "sub_link text = re_sub match_link link_template None text"

definition sub_code :: "string \<Rightarrow> string" where
  "sub_code text = re_sub (match_span ''`'' CHR ''`'') (wrap ''<code>'' ''</code>'') None text"

definition sub_mark :: "string \<Rightarrow> string" where
  "sub_mark text = re_sub (match_span ''=='' CHR ''='') (wrap ''<mark>'' ''</mark>'') None text"

definition sub_strong_star :: "string \<Rightarrow> string" where
  "sub_strong_star text =
     re_sub (match_span ''**'' CHR ''*'') (wrap ''<strong>'' ''</strong>'') None text"

definition sub_strong_underscore :: "string \<Rightarrow> string" where
  "sub_strong_underscore text =
     re_sub (match_span ''__'' CHR ''_'') (wrap ''<strong>'' ''</strong>'') None text"

definition sub_em_star :: "string \<Rightarrow> string" where
  "sub_em_star text = re_sub (match_span ''*'' CHR ''*'') (wrap ''<em>'' ''</em>'') None text"

definition sub_em_underscore :: "string \<Rightarrow> string" where
  "sub_em_underscore text = re_sub match_em_underscore (wrap ''<em>'' ''</em>'') None text"

definition process_inline :: "string \<Rightarrow> string" where
  \<comment> \<open>images, links, inline code, highlight, bold (stars, underscores), italic (stars, underscores)\<close>
  "process_inline text =
     sub_em_underscore (sub_em_star (sub_strong_underscore (sub_strong_star
       (sub_mark (sub_code (sub_link (sub_image text)))))))"

definition escape_html :: "string \<Rightarrow> string" where
  \<comment> \<open>\<^verbatim>\<open>text.replace('&', '&amp;').replace('<', '&lt;').replace('>', '&gt;')\<close>\<close>
  "escape_html text =
     replace_char CHR ''>'' ''&gt;'' (replace_char CHR ''<'' ''&lt;''
       (replace_char CHR ''&'' ''&amp;'' text))"

section \<open>The block parser\<close>

text \<open>
  The local variables of \<^verbatim>\<open>parse_markdown\<close>: the output fragments, the four flags and the
  blockquote buffer.
\<close>

record state =
  html_lines :: "string list"
  in_code_block :: bool
  in_ul :: bool
  in_ol :: bool
  in_blockquote :: bool
  blockquote_lines :: "string list"

definition init_state :: state where
  "init_state = \<lparr>html_lines = [], in_code_block = False, in_ul = False, in_ol = False,
     in_blockquote = False, blockquote_lines = []\<rparr>"

datatype py_error = IndexError

definition emit :: "string \<Rightarrow> state \<Rightarrow> state" where
  \<comment> \<open>\<^verbatim>\<open>html_lines.append(x)\<close>\<close>
  "emit x st = st\<lparr>html_lines := html_lines st @ [x]\<rparr>"

definition is_bullet :: "string \<Rightarrow> bool" where
  \<comment> \<open>\<^verbatim>\<open>line.startswith('- ') or line.startswith('* ')\<close>\<close>
  "is_bullet line = (startswith line ''- '' \<or> startswith line ''* '')"

definition match_ol_prefix :: "string \<Rightarrow> bool" where
  \<comment> \<open>\<^verbatim>\<open>re.match(r'^\d+\. ', line)\<close> as a truth value\<close>
  "match_ol_prefix line =
     (takeWhile isdigit line \<noteq> [] \<and> startswith (dropWhile isdigit line) ''. '')"

definition match_ol :: "string \<Rightarrow> string list option" where
  \<comment> \<open>\<^verbatim>\<open>re.match(r'^(\d+)\. (.+)$', line)\<close>: the groups 0, 1 and 2 of the match. The dot
      matches no newline, and the dollar holds at the end or before a final newline.\<close>
  "match_ol line =
     (let ds = takeWhile isdigit line; r = dropWhile isdigit line
      in if ds = [] \<or> \<not> startswith r ''. '' then None
         else let r1 = drop 2 r;
                  g = takeWhile (\<lambda>c. c \<noteq> CHR 0x0A) r1;
                  r2 = dropWhile (\<lambda>c. c \<noteq> CHR 0x0A) r1
              in if g = [] then None
                 else if r2 = [] \<or> r2 = [CHR 0x0A] then Some [ds @ ''. '' @ g, ds, g]
                 else None)"

definition group :: "string list \<Rightarrow> nat \<Rightarrow> py_error + string" where
  \<comment> \<open>\<^verbatim>\<open>m.group(n)\<close>, which raises IndexError when the pattern has no group \<^verbatim>\<open>n\<close>\<close>
  "group m n = (if n < length m then Inr (m ! n) else Inl IndexError)"

definition blockquote_html :: "state \<Rightarrow> string" where
  \<comment> \<open>\<^verbatim>\<open>f'<blockquote>{" ".join(blockquote_lines)}</blockquote>'\<close>\<close>
  "blockquote_html st = ''<blockquote>'' @ join '' '' (blockquote_lines st) @ ''</blockquote>''"

definition close_lists :: "state \<Rightarrow> string \<Rightarrow> state" where
  \<comment> \<open>the two checks under "Close lists if needed"\<close>
  "close_lists st line =
     (let st1 = (if in_ul st \<and> \<not> is_bullet line
                 then (emit ''</ul>'' st)\<lparr>in_ul := False\<rparr> else st)
      in if in_ol st1 \<and> \<not> match_ol_prefix line
         then (emit ''</ol>'' st1)\<lparr>in_ol := False\<rparr> else st1)"

definition flush_blockquote :: "state \<Rightarrow> state" where
  \<comment> \<open>the \<^verbatim>\<open>elif in_blockquote\<close> branch\<close>
  "flush_blockquote st =
     (if in_blockquote st
      then (emit (blockquote_html st) st)\<lparr>in_blockquote := False, blockquote_lines := []\<rparr>
      else st)"

definition parse_block :: "state \<Rightarrow> string \<Rightarrow> py_error + state" where
  \<comment> \<open>headers, horizontal rule, list items, empty lines and paragraphs\<close>
  "parse_block st line =
     (if startswith line ''#### ''
      then Inr (emit (''<h4>'' @ process_inline (drop 5 line) @ ''</h4>'') st)
      else if startswith line ''### ''
      then Inr (emit (''<h3>'' @ process_inline (drop 4 line) @ ''</h3>'') st)
      else if startswith line ''## ''
      then Inr (emit (''<h2>'' @ process_inline (drop 3 line) @ ''</h2>'') st)
      else if startswith line ''# ''
      then Inr (emit (''<h1>'' @ process_inline (drop 2 line) @ ''</h1>'') st)
      else if strip line \<in> set [''---'', ''***'', ''___'']
      then Inr (emit ''<hr>'' st)
      else if is_bullet line
      then let st1 = (if \<not> in_ul st then (emit ''<ul>'' st)\<lparr>in_ul := True\<rparr> else st)
           in Inr (emit (''<li>'' @ process_inline (drop 2 line) @ ''</li>'') st1)
      else case match_ol line of
             Some ol_match \<Rightarrow>
               (let st1 = (if \<not> in_ol st then (emit ''<ol>'' st)\<lparr>in_ol := True\<rparr> else st)
                in case group ol_match 2 of
                     Inl e \<Rightarrow> Inl e
                   | Inr g2 \<Rightarrow> Inr (emit (''<li>'' @ process_inline g2 @ ''</li>'') st1))
           | None \<Rightarrow>
               if strip line = []
               then Inr (emit [] st)
               else Inr (emit (''<p>'' @ process_inline line @ ''</p>'') st))"

definition parse_line :: "state \<Rightarrow> string \<Rightarrow> py_error + state" where
  \<comment> \<open>one turn of the loop \<^verbatim>\<open>for line in lines\<close>\<close>
  "parse_line st line =
     (if startswith line ''```''
      then (if in_code_block st
            then Inr ((emit ''</code></pre>'' st)\<lparr>in_code_block := False\<rparr>)
            else Inr ((emit ''<pre><code>'' st)\<lparr>in_code_block := True\<rparr>))
      else if in_code_block st
      then Inr (emit (escape_html line) st)
      else let st1 = close_lists st line
           in if startswith line ''> ''
              then let st2 = (if \<not> in_blockquote st1
                              then st1\<lparr>in_blockquote := True, blockquote_lines := []\<rparr>
                              else st1)
                   in Inr (st2\<lparr>blockquote_lines :=
                                 blockquote_lines st2 @ [process_inline (drop 2 line)]\<rparr>)
              else parse_block (flush_blockquote st1) line)"

fun parse_loop :: "state \<Rightarrow> string list \<Rightarrow> py_error + state" where
  "parse_loop st [] = Inr st"
| "parse_loop st (line # lines) =
     (case parse_line st line of Inl e \<Rightarrow> Inl e | Inr st' \<Rightarrow> parse_loop st' lines)"

definition close_open :: "state \<Rightarrow> state" where
  \<comment> \<open>the three checks under "Close open elements"\<close>
  "close_open st =
     (let st1 = (if in_ul st then emit ''</ul>'' st else st);
          st2 = (if in_ol st1 then emit ''</ol>'' st1 else st1)
      in if in_blockquote st2 then emit (blockquote_html st2) st2 else st2)"

definition render_lines :: "string list \<Rightarrow> py_error + string" where
  \<comment> \<open>\<^verbatim>\<open>parse_markdown\<close> from the loop on: the spec's \<^verbatim>\<open>renderBody\<close>\<close>
  "render_lines lines =
     (case parse_loop init_state lines of
        Inl e \<Rightarrow> Inl e
      | Inr st \<Rightarrow> Inr (join [CHR 0x0A] (html_lines (close_open st))))"

fun split_on :: "char \<Rightarrow> string \<Rightarrow> string list" where
  \<comment> \<open>\<^verbatim>\<open>s.split(c)\<close> for a one-character separator: never the empty list\<close>
  "split_on sep [] = [[]]"
| "split_on sep (c # cs) =
     (if c = sep then [] # split_on sep cs
      else case split_on sep cs of
             [] \<Rightarrow> [[c]]
           | w # ws \<Rightarrow> (c # w) # ws)"

definition parse_markdown :: "string \<Rightarrow> py_error + string" where
  "parse_markdown text = render_lines (split_on CHR 0x0A text)"

section \<open>Predicates used in the statements\<close>

definition modes_exclusive :: "state \<Rightarrow> bool" where
  \<comment> \<open>no two of the flags \<^verbatim>\<open>in_ul\<close>, \<^verbatim>\<open>in_ol\<close>, \<^verbatim>\<open>in_blockquote\<close> are set together\<close>
  "modes_exclusive st =
     (\<not> (in_ul st \<and> in_ol st) \<and> \<not> (in_ul st \<and> in_blockquote st) \<and>
      \<not> (in_ol st \<and> in_blockquote st))"

definition spec_escape_char :: "char \<Rightarrow> string" where
  \<comment> \<open>the reference for \<^verbatim>\<open>escape_html\<close>: every character is escaped once, by itself\<close>
  "spec_escape_char c =
     (if c = CHR ''&'' then ''&amp;'' else if c = CHR ''<'' then ''&lt;''
      else if c = CHR ''>'' then ''&gt;'' else [c])"

text \<open>Three states of the loop, used as examples: after the single line \<^verbatim>\<open>- a\<close>, after
  \<^verbatim>\<open>1. a\<close> and after \<^verbatim>\<open>> q\<close>.\<close>

definition ex_ul :: state where
  "ex_ul = \<lparr>html_lines = [''<ul>'', ''<li>a</li>''], in_code_block = False, in_ul = True,
     in_ol = False, in_blockquote = False, blockquote_lines = []\<rparr>"

definition ex_ol :: state where
  "ex_ol = \<lparr>html_lines = [''<ol>'', ''<li>a</li>''], in_code_block = False, in_ul = False,
     in_ol = True, in_blockquote = False, blockquote_lines = []\<rparr>"

definition ex_quote :: state where
  "ex_quote = \<lparr>html_lines = [], in_code_block = False, in_ul = False,
     in_ol = False, in_blockquote = True, blockquote_lines = [''q'']\<rparr>"

section \<open>Facts about strings and line classes\<close>

lemma startswith_Nil [simp]: "startswith s [] = True"
  by (simp add: startswith_def)

lemma startswith_Cons: "startswith s (c # p) = (case s of [] \<Rightarrow> False | x # xs \<Rightarrow> x = c \<and> startswith xs p)"
  by (cases s) (auto simp: startswith_def)

lemma match_ol_groups: "match_ol line = Some m \<Longrightarrow> \<exists>g0 g1 g2. m = [g0, g1, g2]"
  by (auto simp: match_ol_def Let_def split: if_splits)

lemma match_ol_prefix: "match_ol line = Some m \<Longrightarrow> match_ol_prefix line"
  by (auto simp: match_ol_def match_ol_prefix_def Let_def split: if_splits)

lemma quote_not_bullet: "startswith line ''> '' \<Longrightarrow> \<not> is_bullet line"
  by (auto simp: is_bullet_def startswith_Cons split: list.splits)

lemma quote_not_ol: "startswith line ''> '' \<Longrightarrow> \<not> match_ol_prefix line"
  by (auto simp: match_ol_prefix_def startswith_Cons isdigit_def split: list.splits)

lemma bullet_not_ol: "is_bullet line \<Longrightarrow> \<not> match_ol_prefix line"
  by (auto simp: is_bullet_def match_ol_prefix_def startswith_Cons isdigit_def split: list.splits)

lemma parse_block_total: "\<exists>st'. parse_block st line = Inr st'"
  by (auto simp: parse_block_def group_def Let_def dest!: match_ol_groups split: option.splits)

lemma parse_line_total: "\<exists>st'. parse_line st line = Inr st'"
  by (simp add: parse_line_def Let_def parse_block_total)

lemma parse_loop_total: "\<exists>st'. parse_loop st ls = Inr st'"
proof (induction ls arbitrary: st)
  case Nil
  show ?case by simp
next
  case (Cons l ls)
  obtain st1 where "parse_line st l = Inr st1"
    using parse_line_total by blast
  then show ?case using Cons.IH [of st1] by simp
qed

lemma close_lists_flags:
  "in_ul (close_lists st line) = (in_ul st \<and> is_bullet line)"
  "in_ol (close_lists st line) = (in_ol st \<and> match_ol_prefix line)"
  "in_blockquote (close_lists st line) = in_blockquote st"
  "in_code_block (close_lists st line) = in_code_block st"
  "blockquote_lines (close_lists st line) = blockquote_lines st"
  by (auto simp: close_lists_def emit_def Let_def)

lemma flush_flags:
  "in_ul (flush_blockquote st) = in_ul st"
  "in_ol (flush_blockquote st) = in_ol st"
  "in_blockquote (flush_blockquote st) = False"
  "in_code_block (flush_blockquote st) = in_code_block st"
  by (auto simp: flush_blockquote_def emit_def)

lemma parse_block_flags:
  assumes "parse_block st line = Inr st'"
  shows "in_blockquote st' = in_blockquote st"
    and "in_code_block st' = in_code_block st"
    and "in_ul st' \<Longrightarrow> in_ul st \<or> is_bullet line"
    and "in_ol st' \<Longrightarrow> in_ol st \<or> match_ol_prefix line"
    and "in_ul st' \<and> in_ol st' \<Longrightarrow> in_ul st \<and> in_ol st \<or> in_ul st \<and>  match_ol_prefix line \<or> in_ol st \<and> is_bullet line"
  using assms
  by (auto simp: parse_block_def emit_def group_def Let_def dest: match_ol_prefix split: if_splits option.splits)

lemma parse_line_exclusive:
  assumes "modes_exclusive st" and "parse_line st line = Inr st'"
  shows "modes_exclusive st'"
proof (cases "startswith line ''```'' \<or> in_code_block st")
  case True
  then show ?thesis using assms
    by (auto simp: parse_line_def modes_exclusive_def emit_def split: if_splits)
next
  case False
  note nf = this
  show ?thesis
  proof (cases "startswith line ''> ''")
    case True
    then show ?thesis using assms nf
      by (auto simp: parse_line_def modes_exclusive_def Let_def close_lists_flags
               dest: quote_not_bullet quote_not_ol split: if_splits)
  next
    case False
    then have pb: "parse_block (flush_blockquote (close_lists st line)) line = Inr st'"
      using assms nf by (simp add: parse_line_def Let_def)
    show ?thesis
      using parse_block_flags [OF pb] assms(1) bullet_not_ol [of line]
      by (auto simp: modes_exclusive_def flush_flags close_lists_flags)
  qed
qed

lemma parse_loop_exclusive:
  "modes_exclusive st \<Longrightarrow> parse_loop st ls = Inr st' \<Longrightarrow> modes_exclusive st'"
proof (induction ls arbitrary: st)
  case Nil
  then show ?case by simp
next
  case (Cons l ls)
  then show ?case
    by (auto split: sum.splits dest: parse_line_exclusive)
qed

lemma replace_char_append: "replace_char c new (a @ b) = replace_char c new a @ replace_char c new b"
  by (simp add: replace_char_def)

lemma replace_char_Cons: "replace_char c new (x # s) = (if x = c then new else [x]) @ replace_char c new s"
  by (simp add: replace_char_def)

lemma replace_char_Nil: "replace_char c new [] = []"
  by (simp add: replace_char_def)

lemma escape_html_chars: "escape_html s = concat (map spec_escape_char s)"
  by (induction s) (simp_all add: escape_html_def spec_escape_char_def replace_char_append replace_char_Cons replace_char_Nil)



lemma code_line_step:
  "in_code_block st \<Longrightarrow> \<not> startswith line ''```'' \<Longrightarrow>
   parse_line st line = Inr (st\<lparr>html_lines := html_lines st @ [escape_html line]\<rparr>)"
  by (simp add: parse_line_def emit_def)

lemma close_lists_idle:
  "\<not> in_ul st \<Longrightarrow> \<not> in_ol st \<Longrightarrow> close_lists st line = st"
  by (simp add: close_lists_def)

lemma close_lists_ul:
  "in_ul st \<Longrightarrow> \<not> in_ol st \<Longrightarrow> close_lists st line =
     (if is_bullet line then st else (emit ''</ul>'' st)\<lparr>in_ul := False\<rparr>)"
  by (simp add: close_lists_def emit_def)

lemma close_lists_ol:
  "\<not> in_ul st \<Longrightarrow> in_ol st \<Longrightarrow> close_lists st line =
     (if match_ol_prefix line then st else (emit ''</ol>'' st)\<lparr>in_ol := False\<rparr>)"
  by (simp add: close_lists_def emit_def)

lemma flush_idle: "\<not> in_blockquote st \<Longrightarrow> flush_blockquote st = st"
  by (simp add: flush_blockquote_def)

lemma parse_block_html:
  assumes "parse_block st line = Inr st'"
  shows "\<exists>rest. html_lines st' = html_lines st @ rest"
  using assms
  by (auto simp: parse_block_def emit_def group_def Let_def split: if_splits option.splits)

lemma parse_block_enter_ul:
  assumes "parse_block st line = Inr st'" "\<not> in_ul st" "in_ul st'"
  shows "html_lines st' = html_lines st @ [''<ul>'', ''<li>'' @ process_inline (drop 2 line) @ ''</li>'']"
  using assms
  by (auto simp: parse_block_def emit_def group_def Let_def split: if_splits option.splits)

lemma parse_block_enter_ol:
  assumes "parse_block st line = Inr st'" "\<not> in_ol st" "in_ol st'"
  shows "\<exists>item. html_lines st' = html_lines st @ [''<ol>'', item]"
  using assms
  by (auto simp: parse_block_def emit_def group_def Let_def split: if_splits option.splits)

lemma parse_line_cases:
  assumes "parse_line st line = Inr st'"
  obtains
    (fence) "startswith line ''```''" "in_ul st' = in_ul st" "in_ol st' = in_ol st"
      "in_blockquote st' = in_blockquote st"
  | (code) "\<not> startswith line ''```''" "in_code_block st" "st' = emit (escape_html line) st"
  | (quote) "\<not> startswith line ''```''" "\<not> in_code_block st" "startswith line ''> ''"
      "html_lines st' = html_lines (close_lists st line)" "in_blockquote st'"
      "\<not> in_ul st'" "\<not> in_ol st'"
      "blockquote_lines st' =
         (if in_blockquote st then blockquote_lines st else []) @ [process_inline (drop 2 line)]"
  | (block) "\<not> startswith line ''```''" "\<not> in_code_block st" "\<not> startswith line ''> ''"
      "parse_block (flush_blockquote (close_lists st line)) line = Inr st'"
proof (cases "startswith line ''```''")
  case True
  with assms fence [OF True] show ?thesis
    by (auto simp: parse_line_def emit_def split: if_splits)
next
  case nf: False
  show ?thesis
  proof (cases "in_code_block st")
    case True
    with assms nf code show ?thesis by (auto simp: parse_line_def)
  next
    case nc: False
    show ?thesis
    proof (cases "startswith line ''> ''")
      case True
      have "\<not> in_ul (close_lists st line)" "\<not> in_ol (close_lists st line)"
        using quote_not_bullet [OF True] quote_not_ol [OF True]
        by (simp_all add: close_lists_flags)
      with assms nf nc True show ?thesis
        by (intro quote) (auto simp: parse_line_def Let_def close_lists_flags split: if_splits)
    next
      case False
      with assms nf nc show ?thesis
        by (intro block) (auto simp: parse_line_def Let_def)
    qed
  qed
qed

lemma switch_to_ol:
  assumes "modes_exclusive st" "parse_line st line = Inr st'" "\<not> in_ol st" "in_ol st'"
  shows "\<exists>item. html_lines st' =
           html_lines st @ (if in_ul st then [''</ul>''] else []) @
             (if in_blockquote st then [blockquote_html st] else []) @ [''<ol>'', item]"
  using assms(2)
proof (cases rule: parse_line_cases)
  case fence
  with assms show ?thesis by simp
next
  case code
  with assms show ?thesis by (simp add: emit_def)
next
  case quote
  with assms show ?thesis by simp
next
  case block
  let ?c = "close_lists st line" and ?f = "flush_blockquote (close_lists st line)"
  have nol: "\<not> in_ol ?f" using assms(3) by (simp add: flush_flags close_lists_flags)
  from parse_block_flags(4) [OF block(4) assms(4)] nol have "match_ol_prefix line" by simp
  then have nb: "\<not> is_bullet line" using bullet_not_ol by blast
  obtain item where "html_lines st' = html_lines ?f @ [''<ol>'', item]"
    using parse_block_enter_ol [OF block(4) nol assms(4)] by blast
  moreover have "html_lines ?f = html_lines st @ (if in_ul st then [''</ul>''] else []) @
             (if in_blockquote st then [blockquote_html st] else [])"
    using assms(1,3) nb
    by (auto simp: modes_exclusive_def close_lists_def flush_blockquote_def emit_def blockquote_html_def)
  ultimately show ?thesis by simp
qed

lemma switch_to_ul:
  assumes "modes_exclusive st" "parse_line st line = Inr st'" "\<not> in_ul st" "in_ul st'"
  shows "html_lines st' =
           html_lines st @ (if in_ol st then [''</ol>''] else []) @
             (if in_blockquote st then [blockquote_html st] else []) @
             [''<ul>'', ''<li>'' @ process_inline (drop 2 line) @ ''</li>'']"
  using assms(2)
proof (cases rule: parse_line_cases)
  case fence
  with assms show ?thesis by simp
next
  case code
  with assms show ?thesis by (simp add: emit_def)
next
  case quote
  with assms show ?thesis by simp
next
  case block
  let ?c = "close_lists st line" and ?f = "flush_blockquote (close_lists st line)"
  have nul: "\<not> in_ul ?f" using assms(3) by (simp add: flush_flags close_lists_flags)
  from parse_block_flags(3) [OF block(4) assms(4)] nul have "is_bullet line" by simp
  then have nb: "\<not> match_ol_prefix line" using bullet_not_ol by blast
  have "html_lines st' = html_lines ?f @ [''<ul>'', ''<li>'' @ process_inline (drop 2 line) @ ''</li>'']"
    using parse_block_enter_ul [OF block(4) nul assms(4)] by blast
  moreover have "html_lines ?f = html_lines st @ (if in_ol st then [''</ol>''] else []) @
             (if in_blockquote st then [blockquote_html st] else [])"
    using assms(1,3) nb
    by (auto simp: modes_exclusive_def close_lists_def flush_blockquote_def emit_def blockquote_html_def)
  ultimately show ?thesis by simp
qed

lemma switch_to_blockquote:
  assumes "modes_exclusive st" "parse_line st line = Inr st'" "\<not> in_blockquote st" "in_blockquote st'"
  shows "html_lines st' =
           html_lines st @ (if in_ul st then [''</ul>''] else []) @
             (if in_ol st then [''</ol>''] else [])"
  using assms(2)
proof (cases rule: parse_line_cases)
  case fence
  with assms show ?thesis by simp
next
  case code
  with assms show ?thesis by (simp add: emit_def)
next
  case quote
  have "\<not> is_bullet line" "\<not> match_ol_prefix line"
    using quote(3) quote_not_bullet quote_not_ol by blast+
  with quote(4) assms(1) show ?thesis
    by (auto simp: modes_exclusive_def close_lists_def emit_def)
next
  case block
  from parse_block_flags(1) [OF block(4)] assms(4) show ?thesis
    by (simp add: flush_flags)
qed

lemma init_exclusive: "modes_exclusive init_state"
  by (simp add: modes_exclusive_def init_state_def)

lemma reachable_exclusive: "parse_loop init_state doc = Inr st \<Longrightarrow> modes_exclusive st"
  using parse_loop_exclusive [OF init_exclusive] by blast

lemma strip_Cons: "\<not> isspace c \<Longrightarrow> strip (c # cs) = c # rev (dropWhile isspace (rev cs))"
  by (simp add: strip_def dropWhile_append)

lemma bullet_not_fence: "is_bullet line \<Longrightarrow> \<not> startswith line ''```''"
  by (auto simp: is_bullet_def startswith_Cons split: list.splits)

lemma bullet_not_quote: "is_bullet line \<Longrightarrow> \<not> startswith line ''> ''"
  by (auto simp: is_bullet_def startswith_Cons split: list.splits)

lemma bullet_not_header: "is_bullet line \<Longrightarrow>
  \<not> startswith line ''#### '' \<and> \<not> startswith line ''### '' \<and> \<not> startswith line ''## '' \<and> \<not> startswith line ''# ''"
  by (auto simp: is_bullet_def startswith_Cons split: list.splits)

lemma bullet_not_hr: "is_bullet line \<Longrightarrow> strip line \<notin> set [''---'', ''***'', ''___'']"
  by (auto simp: is_bullet_def startswith_Cons strip_Cons isspace_def dropWhile_append split: list.splits if_splits)

lemma parse_block_bullet:
  "is_bullet line \<Longrightarrow> in_ul st \<Longrightarrow>
   parse_block st line = Inr (emit (''<li>'' @ process_inline (drop 2 line) @ ''</li>'') st)"
  using bullet_not_header [of line] bullet_not_hr [of line]
  by (simp add: parse_block_def)

lemma ul_item_step:
  assumes "modes_exclusive st" "in_ul st" "\<not> in_code_block st" "is_bullet line"
  shows "parse_line st line = Inr (emit (''<li>'' @ process_inline (drop 2 line) @ ''</li>'') st)"
proof -
  have "\<not> in_ol st" "\<not> in_blockquote st"
    using assms(1,2) by (auto simp: modes_exclusive_def)
  then have "flush_blockquote (close_lists st line) = st"
    using assms(2,4) by (simp add: close_lists_ul flush_idle)
  then show ?thesis
    using assms bullet_not_fence [of line] bullet_not_quote [of line]
    by (simp add: parse_line_def Let_def parse_block_bullet)
qed

lemma ul_close_step:
  assumes "modes_exclusive st" "in_ul st" "\<not> in_code_block st" "\<not> is_bullet line"
    "\<not> startswith line ''```''"
  shows "\<exists>st' rest. parse_line st line = Inr st' \<and> \<not> in_ul st' \<and>
           html_lines st' = html_lines st @ ''</ul>'' # rest"
proof -
  have no: "\<not> in_ol st" "\<not> in_blockquote st"
    using assms(1,2) by (auto simp: modes_exclusive_def)
  have c: "close_lists st line = (emit ''</ul>'' st)\<lparr>in_ul := False\<rparr>"
    using no assms by (simp add: close_lists_ul)
  obtain st' where s: "parse_line st line = Inr st'"
    using parse_line_total by blast
  from s show ?thesis
  proof (cases rule: parse_line_cases)
    case fence
    with assms show ?thesis by simp
  next
    case code
    with assms show ?thesis by simp
  next
    case quote
    with s c show ?thesis by (simp add: emit_def)
  next
    case block
    have f: "flush_blockquote (close_lists st line) = (emit ''</ul>'' st)\<lparr>in_ul := False\<rparr>"
      using c no by (simp add: flush_blockquote_def emit_def)
    obtain rest where "html_lines st' = html_lines st @ ''</ul>'' # rest"
      using parse_block_html [OF block(4)] f by (auto simp: emit_def)
    moreover have "\<not> in_ul st'"
      using parse_block_flags(3) [OF block(4)] f assms(4) by auto
    ultimately show ?thesis using s by blast
  qed
qed

lemma close_open_ul:
  "modes_exclusive st \<Longrightarrow> in_ul st \<Longrightarrow> html_lines (close_open st) = html_lines st @ [''</ul>'']"
  by (auto simp: modes_exclusive_def close_open_def emit_def Let_def)

lemma close_open_blockquote:
  "modes_exclusive st \<Longrightarrow> in_blockquote st \<Longrightarrow>
   html_lines (close_open st) = html_lines st @ [blockquote_html st]"
  by (auto simp: modes_exclusive_def close_open_def emit_def Let_def)

lemma quote_step:
  assumes "modes_exclusive st" "\<not> in_code_block st" "startswith line ''> ''"
  shows "\<exists>st'. parse_line st line = Inr st' \<and> in_blockquote st' \<and>
           blockquote_lines st' =
             (if in_blockquote st then blockquote_lines st else []) @ [process_inline (drop 2 line)] \<and>
           html_lines st' = html_lines (close_lists st line)"
proof -
  obtain st' where s: "parse_line st line = Inr st'"
    using parse_line_total by blast
  from s show ?thesis
  proof (cases rule: parse_line_cases)
    case fence
    with assms show ?thesis by (auto simp: startswith_Cons split: list.splits)
  next
    case code
    with assms show ?thesis by simp
  next
    case quote
    with s show ?thesis by simp
  next
    case block
    with assms show ?thesis by simp
  qed
qed

lemma quote_flush_step:
  assumes "modes_exclusive st" "\<not> in_code_block st" "in_blockquote st"
    "\<not> startswith line ''> ''" "\<not> startswith line ''```''"
  shows "parse_line st line =
           parse_block ((emit (blockquote_html st) st)\<lparr>in_blockquote := False, blockquote_lines := []\<rparr>) line"
proof -
  have "\<not> in_ul st" "\<not> in_ol st"
    using assms(1,3) by (auto simp: modes_exclusive_def)
  then have "close_lists st line = st" by (simp add: close_lists_idle)
  then show ?thesis using assms
    by (simp add: parse_line_def Let_def flush_blockquote_def)
qed

lemma hashes_not_header:
  "startswith line ''#####'' \<Longrightarrow>
   \<not> startswith line ''#### '' \<and> \<not> startswith line ''### '' \<and> \<not> startswith line ''## '' \<and>
   \<not> startswith line ''# ''"
  by (auto simp: startswith_Cons split: list.splits)

lemma hashes_paragraph:
  assumes "startswith line ''#####''"
  shows "parse_block st line = Inr (emit (''<p>'' @ process_inline line @ ''</p>'') st)"
proof -
  obtain r where l: "line = CHR ''#'' # r"
    using assms by (auto simp: startswith_Cons split: list.splits)
  have "strip line \<notin> set [''---'', ''***'', ''___'']" "strip line \<noteq> []"
    by (simp_all add: l strip_Cons isspace_def)
  moreover have "\<not> is_bullet line" "match_ol line = None"
    by (simp_all add: l is_bullet_def startswith_Cons match_ol_def isdigit_def)
  ultimately show ?thesis
    using hashes_not_header [OF assms] by (simp add: parse_block_def)
qed

lemma hashes_step:
  assumes "startswith line ''#####''" "\<not> in_code_block st"
  shows "parse_line st line =
     Inr (emit (''<p>'' @ process_inline line @ ''</p>'') (flush_blockquote (close_lists st line)))"
proof -
  have "\<not> startswith line ''```''" "\<not> startswith line ''> ''"
    using assms(1) by (auto simp: startswith_Cons split: list.splits)
  then show ?thesis using assms
    by (simp add: parse_line_def Let_def hashes_paragraph)
qed

section \<open>Facts about the inline rules\<close>

lemma re_sub_no_match:
  assumes "\<And>p t y. m p t = Some y \<Longrightarrow> \<not> P t" and "\<And>c t. P (c # t) \<Longrightarrow> P t" and "P s"
  shows "re_sub m repl prev s = s"
  using assms(3)
proof (induction s arbitrary: prev)
  case Nil
  then have "m prev [] = None"
    using assms(1) by (cases "m prev []") auto
  then show ?case by simp
next
  case (Cons c cs)
  from assms(2) [OF Cons.prems] have "P cs" .
  moreover have "m prev (c # cs) = None"
    using assms(1) Cons.prems by (cases "m prev (c # cs)") auto
  ultimately show ?case using Cons.IH by simp
qed

lemma match_brackets_needs:
  assumes "match_brackets b s = Some x"
  shows "CHR ''['' \<in> set s \<and> CHR '')'' \<in> set s"
proof -
  obtain r where s: "s = CHR ''['' # r"
    using assms by (auto simp: match_brackets_def split: list.splits if_splits)
  let ?r1 = "dropWhile (\<lambda>x. x \<noteq> CHR '']'') r"
  let ?r3 = "dropWhile (\<lambda>x. x \<noteq> CHR '')'') (drop 2 ?r1)"
  have "startswith ?r3 '')''"
    using assms by (auto simp: s match_brackets_def Let_def split: if_splits)
  then have "CHR '')'' \<in> set ?r3"
    by (auto simp: startswith_Cons split: list.splits)
  then have "CHR '')'' \<in> set r"
    by (meson in_set_dropD set_dropWhileD)
  with s show ?thesis by simp
qed

lemma match_image_needs: "match_image p s = Some x \<Longrightarrow> CHR ''['' \<in> set s"
  by (auto simp: match_image_def split: list.splits if_splits dest: match_brackets_needs)

lemma match_span_needs: "match_span d x p s = Some y \<Longrightarrow> startswith s d"
  by (auto simp: match_span_def split: if_splits)

lemma match_em_underscore_needs: "match_em_underscore p s = Some y \<Longrightarrow> startswith s ''_''"
  by (auto simp: match_em_underscore_def split: if_splits option.splits dest: match_span_needs)

lemma startswith_hd: "startswith s (c # d) \<Longrightarrow> c \<in> set s"
  by (auto simp: startswith_Cons split: list.splits)

lemma match_link_needs: "match_link p s = Some x \<Longrightarrow> CHR ''['' \<in> set s \<and> CHR '')'' \<in> set s"
  by (simp add: match_link_def match_brackets_needs)

lemma sub_image_id: "CHR ''['' \<notin> set s \<Longrightarrow> sub_image s = s"
  unfolding sub_image_def
  by (rule re_sub_no_match [where P = "\<lambda>t. CHR ''['' \<notin> set t"])
     (auto dest: match_image_needs)

lemma sub_link_id: "CHR ''['' \<notin> set s \<Longrightarrow> sub_link s = s"
  unfolding sub_link_def
  by (rule re_sub_no_match [where P = "\<lambda>t. CHR ''['' \<notin> set t"])
     (auto dest: match_link_needs)


lemma span_id: "c \<notin> set s \<Longrightarrow> re_sub (match_span (c # d) x) repl prev s = s"
  by (rule re_sub_no_match [where P = "\<lambda>t. c \<notin> set t"])
     (auto dest: match_span_needs startswith_hd)

lemma sub_code_id: "CHR ''`'' \<notin> set s \<Longrightarrow> sub_code s = s"
  by (simp add: sub_code_def span_id)

lemma sub_strong_star_id: "CHR ''*'' \<notin> set s \<Longrightarrow> sub_strong_star s = s"
  by (simp add: sub_strong_star_def span_id)

lemma sub_strong_underscore_id: "CHR ''_'' \<notin> set s \<Longrightarrow> sub_strong_underscore s = s"
  by (simp add: sub_strong_underscore_def span_id)

lemma sub_em_star_id: "CHR ''*'' \<notin> set s \<Longrightarrow> sub_em_star s = s"
  by (simp add: sub_em_star_def span_id)

lemma sub_em_underscore_id: "CHR ''_'' \<notin> set s \<Longrightarrow> sub_em_underscore s = s"
  unfolding sub_em_underscore_def
  by (rule re_sub_no_match [where P = "\<lambda>t. CHR ''_'' \<notin> set t"])
     (auto dest: match_em_underscore_needs startswith_hd)

lemma contains_tail: "\<not> contains (c # t) p \<Longrightarrow> \<not> contains t p"
  by simp

lemma contains_start: "startswith t (c # p) \<Longrightarrow> contains t (c # p)"
  by (cases t) (auto simp: startswith_def)

lemma sub_mark_id: "\<not> contains s ''=='' \<Longrightarrow> sub_mark s = s"
  unfolding sub_mark_def
  by (rule re_sub_no_match [where P = "\<lambda>t. \<not> contains t ''==''"])
     (auto dest: match_span_needs contains_start)




lemma img_no_paren:
  \<open>CHR '')'' \<notin> set alt \<Longrightarrow> CHR '')'' \<notin> set url \<Longrightarrow> CHR '')'' \<notin> set (img_template (alt, url))\<close>
  by (simp add: img_template_def)








section \<open>Properties of the inline transformer\<close>

text \<open>
  C1 (amended). \<^verbatim>\<open>process_inline("**x**")\<close> is \<^verbatim>\<open><strong>x</strong>\<close> and
  \<^verbatim>\<open>process_inline("*x*")\<close> is \<^verbatim>\<open><em>x</em>\<close>. The bold pattern \<^verbatim>\<open>\*\*([^*]+)\*\*\<close>
  admits no asterisk inside the span, so on \<^verbatim>\<open>**a *b* c**\<close> the bold rule finds no match
  and the italic rule pairs the remaining asterisks from the left: the result is
  \<^verbatim>\<open>*<em>a </em>b<em> c</em>*\<close>. Italic written with underscores does nest inside bold.
\<close>

theorem emphasis_examples:
  "process_inline ''**x**'' = ''<strong>x</strong>'' \<and>
   process_inline ''*x*'' = ''<em>x</em>'' \<and>
   process_inline ''**a *b* c**'' = ''*<em>a </em>b<em> c</em>*'' \<and>
   sub_strong_star ''**a *b* c**'' = ''**a *b* c**'' \<and>
   process_inline ''**a _b_ c**'' = ''<strong>a <em>b</em> c</strong>''"
  by code_simp

theorem nested_emphasis_counterexample:
  "process_inline ''**a *b* c**'' \<noteq> ''<strong>a <em>b</em> c</strong>''"
  by code_simp




text \<open>
  C9. A line without backtick, asterisk, underscore and opening bracket, and without two
  equals signs in a row, is returned unchanged by \<^verbatim>\<open>process_inline\<close>.
\<close>

theorem inline_identity:
  assumes "CHR ''`'' \<notin> set line" and "CHR ''*'' \<notin> set line" and "CHR ''_'' \<notin> set line"
    and "CHR ''['' \<notin> set line" and "\<not> contains line ''==''"
  shows "process_inline line = line"
  using assms
  by (simp add: process_inline_def sub_image_id sub_link_id sub_code_id sub_mark_id
      sub_strong_star_id sub_strong_underscore_id sub_em_star_id sub_em_underscore_id)

theorem inline_identity_witness:
  "CHR ''`'' \<notin> set ''a = b, c < d & e!'' \<and> CHR ''*'' \<notin> set ''a = b, c < d & e!'' \<and>
   CHR ''_'' \<notin> set ''a = b, c < d & e!'' \<and> CHR ''['' \<notin> set ''a = b, c < d & e!'' \<and>
   \<not> contains ''a = b, c < d & e!'' ''=='' \<and>
   process_inline ''a = b, c < d & e!'' = ''a = b, c < d & e!''"
proof -
  have h: "CHR ''`'' \<notin> set ''a = b, c < d & e!''" "CHR ''*'' \<notin> set ''a = b, c < d & e!''"
    "CHR ''_'' \<notin> set ''a = b, c < d & e!''" "CHR ''['' \<notin> set ''a = b, c < d & e!''"
    by simp_all
  have e: "\<not> contains ''a = b, c < d & e!'' ''==''"
    by code_simp
  from inline_identity [OF h e] h e show ?thesis
    by blast
qed

section \<open>Properties of the block parser\<close>




text \<open>
  C3. \<^verbatim>\<open>parse_markdown\<close> raises on no input: for every sequence of lines the loop and the
  final cleanup return a string (the only call that can raise, \<^verbatim>\<open>ol_match.group(2)\<close>, is
  made on matches of a pattern with two groups), and so does the function on every text.
  The empty sequence of lines and the empty text give the empty string.
\<close>

theorem render_total:
  "(\<exists>html. render_lines lines = Inr html) \<and> render_lines [] = Inr [] \<and>
   (\<exists>html. parse_markdown text = Inr html) \<and> parse_markdown [] = Inr []"
proof -
  have t: "\<exists>html. render_lines ls = Inr html" for ls
  proof -
    obtain st where "parse_loop init_state ls = Inr st"
      using parse_loop_total by blast
    then show ?thesis by (simp add: render_lines_def)
  qed
  have e: "render_lines [] = Inr []"
    by (simp add: render_lines_def close_open_def init_state_def)
  have e2: "parse_markdown [] = Inr []"
    by (simp add: parse_markdown_def render_lines_def close_open_def init_state_def
        parse_line_def parse_block_def startswith_def close_lists_def flush_blockquote_def
        strip_def is_bullet_def match_ol_def emit_def)
  from t [of lines] t [of "split_on CHR 0x0A text"] e e2 show ?thesis
    by (simp add: parse_markdown_def)
qed

text \<open>
  C4. In every state that the loop reaches, after any number of lines of any document, at
  most one of \<^verbatim>\<open>in_ul\<close>, \<^verbatim>\<open>in_ol\<close>, \<^verbatim>\<open>in_blockquote\<close> is set, and the same holds after the
  next line. When that line moves the parser from one of these modes to another, the
  fragments it appends start with the closing tag of the old list (or the flushed
  blockquote), and the opening tag of the new list comes after it.
\<close>

theorem modes_exclusive_steps:
  assumes "parse_loop init_state (take n doc) = Inr st" and "parse_line st line = Inr st'"
  shows "modes_exclusive st \<and> modes_exclusive st' \<and>
    (in_ul st \<and> in_ol st' \<longrightarrow>
       (\<exists>item. html_lines st' = html_lines st @ [''</ul>'', ''<ol>'', item])) \<and>
    (in_ul st \<and> in_blockquote st' \<longrightarrow> html_lines st' = html_lines st @ [''</ul>'']) \<and>
    (in_ol st \<and> in_ul st' \<longrightarrow>
       (\<exists>item. html_lines st' = html_lines st @ [''</ol>'', ''<ul>'', item])) \<and>
    (in_ol st \<and> in_blockquote st' \<longrightarrow> html_lines st' = html_lines st @ [''</ol>'']) \<and>
    (in_blockquote st \<and> in_ul st' \<longrightarrow>
       (\<exists>item. html_lines st' = html_lines st @ [blockquote_html st, ''<ul>'', item])) \<and>
    (in_blockquote st \<and> in_ol st' \<longrightarrow>
       (\<exists>item. html_lines st' = html_lines st @ [blockquote_html st, ''<ol>'', item]))"
proof -
  have ex: "modes_exclusive st"
    using assms(1) by (rule reachable_exclusive)
  have ex': "modes_exclusive st'"
    using ex assms(2) by (rule parse_line_exclusive)
  have a: "\<exists>item. html_lines st' = html_lines st @ [''</ul>'', ''<ol>'', item]"
    if "in_ul st" "in_ol st'"
    using switch_to_ol [OF ex assms(2)] ex that by (auto simp: modes_exclusive_def)
  have b: "html_lines st' = html_lines st @ [''</ul>'']" if "in_ul st" "in_blockquote st'"
    using switch_to_blockquote [OF ex assms(2)] ex that by (auto simp: modes_exclusive_def)
  have c: "\<exists>item. html_lines st' = html_lines st @ [''</ol>'', ''<ul>'', item]"
    if "in_ol st" "in_ul st'"
    using switch_to_ul [OF ex assms(2)] ex that by (auto simp: modes_exclusive_def)
  have d: "html_lines st' = html_lines st @ [''</ol>'']" if "in_ol st" "in_blockquote st'"
    using switch_to_blockquote [OF ex assms(2)] ex that by (auto simp: modes_exclusive_def)
  have e: "\<exists>item. html_lines st' = html_lines st @ [blockquote_html st, ''<ul>'', item]"
    if "in_blockquote st" "in_ul st'"
    using switch_to_ul [OF ex assms(2)] ex that by (auto simp: modes_exclusive_def)
  have f: "\<exists>item. html_lines st' = html_lines st @ [blockquote_html st, ''<ol>'', item]"
    if "in_blockquote st" "in_ol st'"
    using switch_to_ol [OF ex assms(2)] ex that by (auto simp: modes_exclusive_def)
  from ex ex' a b c d e f show ?thesis
    by blast
qed

theorem modes_exclusive_steps_witness:
  "(parse_loop init_state (take 1 [''- a'', ''1. b'']) = Inr ex_ul \<and>
    parse_line ex_ul ''1. b'' =
      Inr (ex_ul\<lparr>html_lines := html_lines ex_ul @ [''</ul>'', ''<ol>'', ''<li>b</li>''], in_ul := False, in_ol := True\<rparr>) \<and>
    in_ul ex_ul \<and>
    in_ol (ex_ul\<lparr>html_lines := html_lines ex_ul @ [''</ul>'', ''<ol>'', ''<li>b</li>''], in_ul := False, in_ol := True\<rparr>) \<and>
    modes_exclusive ex_ul \<and>
    modes_exclusive (ex_ul\<lparr>html_lines := html_lines ex_ul @ [''</ul>'', ''<ol>'', ''<li>b</li>''], in_ul := False, in_ol := True\<rparr>) \<and>
    (\<exists>item. html_lines (ex_ul\<lparr>html_lines := html_lines ex_ul @ [''</ul>'', ''<ol>'', ''<li>b</li>''], in_ul := False, in_ol := True\<rparr>) =
       html_lines ex_ul @ [''</ul>'', ''<ol>'', item])) \<and>
   (parse_loop init_state (take 1 [''- a'', ''> q'']) = Inr ex_ul \<and>
    parse_line ex_ul ''> q'' =
      Inr (ex_ul\<lparr>html_lines := html_lines ex_ul @ [''</ul>''], in_ul := False, in_blockquote := True, blockquote_lines := [''q'']\<rparr>) \<and>
    in_ul ex_ul \<and>
    in_blockquote (ex_ul\<lparr>html_lines := html_lines ex_ul @ [''</ul>''], in_ul := False, in_blockquote := True, blockquote_lines := [''q'']\<rparr>) \<and>
    modes_exclusive ex_ul \<and>
    modes_exclusive (ex_ul\<lparr>html_lines := html_lines ex_ul @ [''</ul>''], in_ul := False, in_blockquote := True, blockquote_lines := [''q'']\<rparr>) \<and>
    html_lines (ex_ul\<lparr>html_lines := html_lines ex_ul @ [''</ul>''], in_ul := False, in_blockquote := True, blockquote_lines := [''q'']\<rparr>) =
      html_lines ex_ul @ [''</ul>'']) \<and>
   (parse_loop init_state (take 1 [''1. a'', ''- b'']) = Inr ex_ol \<and>
    parse_line ex_ol ''- b'' =
      Inr (ex_ol\<lparr>html_lines := html_lines ex_ol @ [''</ol>'', ''<ul>'', ''<li>b</li>''], in_ul := True, in_ol := False\<rparr>) \<and>
    in_ol ex_ol \<and>
    in_ul (ex_ol\<lparr>html_lines := html_lines ex_ol @ [''</ol>'', ''<ul>'', ''<li>b</li>''], in_ul := True, in_ol := False\<rparr>) \<and>
    modes_exclusive ex_ol \<and>
    modes_exclusive (ex_ol\<lparr>html_lines := html_lines ex_ol @ [''</ol>'', ''<ul>'', ''<li>b</li>''], in_ul := True, in_ol := False\<rparr>) \<and>
    (\<exists>item. html_lines (ex_ol\<lparr>html_lines := html_lines ex_ol @ [''</ol>'', ''<ul>'', ''<li>b</li>''], in_ul := True, in_ol := False\<rparr>) =
       html_lines ex_ol @ [''</ol>'', ''<ul>'', item])) \<and>
   (parse_loop init_state (take 1 [''1. a'', ''> q'']) = Inr ex_ol \<and>
    parse_line ex_ol ''> q'' =
      Inr (ex_ol\<lparr>html_lines := html_lines ex_ol @ [''</ol>''], in_ol := False, in_blockquote := True, blockquote_lines := [''q'']\<rparr>) \<and>
    in_ol ex_ol \<and>
    in_blockquote (ex_ol\<lparr>html_lines := html_lines ex_ol @ [''</ol>''], in_ol := False, in_blockquote := True, blockquote_lines := [''q'']\<rparr>) \<and>
    modes_exclusive ex_ol \<and>
    modes_exclusive (ex_ol\<lparr>html_lines := html_lines ex_ol @ [''</ol>''], in_ol := False, in_blockquote := True, blockquote_lines := [''q'']\<rparr>) \<and>
    html_lines (ex_ol\<lparr>html_lines := html_lines ex_ol @ [''</ol>''], in_ol := False, in_blockquote := True, blockquote_lines := [''q'']\<rparr>) =
      html_lines ex_ol @ [''</ol>'']) \<and>
   (parse_loop init_state (take 1 [''> q'', ''- b'']) = Inr ex_quote \<and>
    parse_line ex_quote ''- b'' =
      Inr (ex_quote\<lparr>html_lines := html_lines ex_quote @ [''<blockquote>q</blockquote>'', ''<ul>'', ''<li>b</li>''], in_ul := True, in_blockquote := False, blockquote_lines := []\<rparr>) \<and>
    in_blockquote ex_quote \<and>
    in_ul (ex_quote\<lparr>html_lines := html_lines ex_quote @ [''<blockquote>q</blockquote>'', ''<ul>'', ''<li>b</li>''], in_ul := True, in_blockquote := False, blockquote_lines := []\<rparr>) \<and>
    modes_exclusive ex_quote \<and>
    modes_exclusive (ex_quote\<lparr>html_lines := html_lines ex_quote @ [''<blockquote>q</blockquote>'', ''<ul>'', ''<li>b</li>''], in_ul := True, in_blockquote := False, blockquote_lines := []\<rparr>) \<and>
    (\<exists>item. html_lines (ex_quote\<lparr>html_lines := html_lines ex_quote @ [''<blockquote>q</blockquote>'', ''<ul>'', ''<li>b</li>''], in_ul := True, in_blockquote := False, blockquote_lines := []\<rparr>) =
       html_lines ex_quote @ [blockquote_html ex_quote, ''<ul>'', item])) \<and>
   (parse_loop init_state (take 1 [''> q'', ''1. b'']) = Inr ex_quote \<and>
    parse_line ex_quote ''1. b'' =
      Inr (ex_quote\<lparr>html_lines := html_lines ex_quote @ [''<blockquote>q</blockquote>'', ''<ol>'', ''<li>b</li>''], in_ol := True, in_blockquote := False, blockquote_lines := []\<rparr>) \<and>
    in_blockquote ex_quote \<and>
    in_ol (ex_quote\<lparr>html_lines := html_lines ex_quote @ [''<blockquote>q</blockquote>'', ''<ol>'', ''<li>b</li>''], in_ol := True, in_blockquote := False, blockquote_lines := []\<rparr>) \<and>
    modes_exclusive ex_quote \<and>
    modes_exclusive (ex_quote\<lparr>html_lines := html_lines ex_quote @ [''<blockquote>q</blockquote>'', ''<ol>'', ''<li>b</li>''], in_ol := True, in_blockquote := False, blockquote_lines := []\<rparr>) \<and>
    (\<exists>item. html_lines (ex_quote\<lparr>html_lines := html_lines ex_quote @ [''<blockquote>q</blockquote>'', ''<ol>'', ''<li>b</li>''], in_ol := True, in_blockquote := False, blockquote_lines := []\<rparr>) =
       html_lines ex_quote @ [blockquote_html ex_quote, ''<ol>'', item]))"
proof -
  have a: "parse_loop init_state (take 1 [''- a'', ''1. b'']) = Inr ex_ul"
    by code_simp
  have b: "parse_line ex_ul ''1. b'' =
      Inr (ex_ul\<lparr>html_lines := html_lines ex_ul @ [''</ul>'', ''<ol>'', ''<li>b</li>''], in_ul := False, in_ol := True\<rparr>)"
    by code_simp
  have c: "in_ul ex_ul"
    "in_ol (ex_ul\<lparr>html_lines := html_lines ex_ul @ [''</ul>'', ''<ol>'', ''<li>b</li>''], in_ul := False, in_ol := True\<rparr>)"
    by (simp_all add: ex_ul_def)
  have i1: "parse_loop init_state (take 1 [''- a'', ''1. b'']) = Inr ex_ul \<and>
    parse_line ex_ul ''1. b'' =
      Inr (ex_ul\<lparr>html_lines := html_lines ex_ul @ [''</ul>'', ''<ol>'', ''<li>b</li>''], in_ul := False, in_ol := True\<rparr>) \<and>
    in_ul ex_ul \<and>
    in_ol (ex_ul\<lparr>html_lines := html_lines ex_ul @ [''</ul>'', ''<ol>'', ''<li>b</li>''], in_ul := False, in_ol := True\<rparr>) \<and>
    modes_exclusive ex_ul \<and>
    modes_exclusive (ex_ul\<lparr>html_lines := html_lines ex_ul @ [''</ul>'', ''<ol>'', ''<li>b</li>''], in_ul := False, in_ol := True\<rparr>) \<and>
    (\<exists>item. html_lines (ex_ul\<lparr>html_lines := html_lines ex_ul @ [''</ul>'', ''<ol>'', ''<li>b</li>''], in_ul := False, in_ol := True\<rparr>) =
       html_lines ex_ul @ [''</ul>'', ''<ol>'', item])"
    using a b c modes_exclusive_steps [OF a b] by blast
  have a: "parse_loop init_state (take 1 [''- a'', ''> q'']) = Inr ex_ul"
    by code_simp
  have b: "parse_line ex_ul ''> q'' =
      Inr (ex_ul\<lparr>html_lines := html_lines ex_ul @ [''</ul>''], in_ul := False, in_blockquote := True, blockquote_lines := [''q'']\<rparr>)"
    by code_simp
  have c: "in_ul ex_ul"
    "in_blockquote (ex_ul\<lparr>html_lines := html_lines ex_ul @ [''</ul>''], in_ul := False, in_blockquote := True, blockquote_lines := [''q'']\<rparr>)"
    by (simp_all add: ex_ul_def)
  have i2: "parse_loop init_state (take 1 [''- a'', ''> q'']) = Inr ex_ul \<and>
    parse_line ex_ul ''> q'' =
      Inr (ex_ul\<lparr>html_lines := html_lines ex_ul @ [''</ul>''], in_ul := False, in_blockquote := True, blockquote_lines := [''q'']\<rparr>) \<and>
    in_ul ex_ul \<and>
    in_blockquote (ex_ul\<lparr>html_lines := html_lines ex_ul @ [''</ul>''], in_ul := False, in_blockquote := True, blockquote_lines := [''q'']\<rparr>) \<and>
    modes_exclusive ex_ul \<and>
    modes_exclusive (ex_ul\<lparr>html_lines := html_lines ex_ul @ [''</ul>''], in_ul := False, in_blockquote := True, blockquote_lines := [''q'']\<rparr>) \<and>
    html_lines (ex_ul\<lparr>html_lines := html_lines ex_ul @ [''</ul>''], in_ul := False, in_blockquote := True, blockquote_lines := [''q'']\<rparr>) =
      html_lines ex_ul @ [''</ul>'']"
    using a b c modes_exclusive_steps [OF a b] by blast
  have a: "parse_loop init_state (take 1 [''1. a'', ''- b'']) = Inr ex_ol"
    by code_simp
  have b: "parse_line ex_ol ''- b'' =
      Inr (ex_ol\<lparr>html_lines := html_lines ex_ol @ [''</ol>'', ''<ul>'', ''<li>b</li>''], in_ul := True, in_ol := False\<rparr>)"
    by code_simp
  have c: "in_ol ex_ol"
    "in_ul (ex_ol\<lparr>html_lines := html_lines ex_ol @ [''</ol>'', ''<ul>'', ''<li>b</li>''], in_ul := True, in_ol := False\<rparr>)"
    by (simp_all add: ex_ol_def)
  have i3: "parse_loop init_state (take 1 [''1. a'', ''- b'']) = Inr ex_ol \<and>
    parse_line ex_ol ''- b'' =
      Inr (ex_ol\<lparr>html_lines := html_lines ex_ol @ [''</ol>'', ''<ul>'', ''<li>b</li>''], in_ul := True, in_ol := False\<rparr>) \<and>
    in_ol ex_ol \<and>
    in_ul (ex_ol\<lparr>html_lines := html_lines ex_ol @ [''</ol>'', ''<ul>'', ''<li>b</li>''], in_ul := True, in_ol := False\<rparr>) \<and>
    modes_exclusive ex_ol \<and>
    modes_exclusive (ex_ol\<lparr>html_lines := html_lines ex_ol @ [''</ol>'', ''<ul>'', ''<li>b</li>''], in_ul := True, in_ol := False\<rparr>) \<and>
    (\<exists>item. html_lines (ex_ol\<lparr>html_lines := html_lines ex_ol @ [''</ol>'', ''<ul>'', ''<li>b</li>''], in_ul := True, in_ol := False\<rparr>) =
       html_lines ex_ol @ [''</ol>'', ''<ul>'', item])"
    using a b c modes_exclusive_steps [OF a b] by blast
  have a: "parse_loop init_state (take 1 [''1. a'', ''> q'']) = Inr ex_ol"
    by code_simp
  have b: "parse_line ex_ol ''> q'' =
      Inr (ex_ol\<lparr>html_lines := html_lines ex_ol @ [''</ol>''], in_ol := False, in_blockquote := True, blockquote_lines := [''q'']\<rparr>)"
    by code_simp
  have c: "in_ol ex_ol"
    "in_blockquote (ex_ol\<lparr>html_lines := html_lines ex_ol @ [''</ol>''], in_ol := False, in_blockquote := True, blockquote_lines := [''q'']\<rparr>)"
    by (simp_all add: ex_ol_def)
  have i4: "parse_loop init_state (take 1 [''1. a'', ''> q'']) = Inr ex_ol \<and>
    parse_line ex_ol ''> q'' =
      Inr (ex_ol\<lparr>html_lines := html_lines ex_ol @ [''</ol>''], in_ol := False, in_blockquote := True, blockquote_lines := [''q'']\<rparr>) \<and>
    in_ol ex_ol \<and>
    in_blockquote (ex_ol\<lparr>html_lines := html_lines ex_ol @ [''</ol>''], in_ol := False, in_blockquote := True, blockquote_lines := [''q'']\<rparr>) \<and>
    modes_exclusive ex_ol \<and>
    modes_exclusive (ex_ol\<lparr>html_lines := html_lines ex_ol @ [''</ol>''], in_ol := False, in_blockquote := True, blockquote_lines := [''q'']\<rparr>) \<and>
    html_lines (ex_ol\<lparr>html_lines := html_lines ex_ol @ [''</ol>''], in_ol := False, in_blockquote := True, blockquote_lines := [''q'']\<rparr>) =
      html_lines ex_ol @ [''</ol>'']"
    using a b c modes_exclusive_steps [OF a b] by blast
  have a: "parse_loop init_state (take 1 [''> q'', ''- b'']) = Inr ex_quote"
    by code_simp
  have b: "parse_line ex_quote ''- b'' =
      Inr (ex_quote\<lparr>html_lines := html_lines ex_quote @ [''<blockquote>q</blockquote>'', ''<ul>'', ''<li>b</li>''], in_ul := True, in_blockquote := False, blockquote_lines := []\<rparr>)"
    by code_simp
  have c: "in_blockquote ex_quote"
    "in_ul (ex_quote\<lparr>html_lines := html_lines ex_quote @ [''<blockquote>q</blockquote>'', ''<ul>'', ''<li>b</li>''], in_ul := True, in_blockquote := False, blockquote_lines := []\<rparr>)"
    by (simp_all add: ex_quote_def)
  have i5: "parse_loop init_state (take 1 [''> q'', ''- b'']) = Inr ex_quote \<and>
    parse_line ex_quote ''- b'' =
      Inr (ex_quote\<lparr>html_lines := html_lines ex_quote @ [''<blockquote>q</blockquote>'', ''<ul>'', ''<li>b</li>''], in_ul := True, in_blockquote := False, blockquote_lines := []\<rparr>) \<and>
    in_blockquote ex_quote \<and>
    in_ul (ex_quote\<lparr>html_lines := html_lines ex_quote @ [''<blockquote>q</blockquote>'', ''<ul>'', ''<li>b</li>''], in_ul := True, in_blockquote := False, blockquote_lines := []\<rparr>) \<and>
    modes_exclusive ex_quote \<and>
    modes_exclusive (ex_quote\<lparr>html_lines := html_lines ex_quote @ [''<blockquote>q</blockquote>'', ''<ul>'', ''<li>b</li>''], in_ul := True, in_blockquote := False, blockquote_lines := []\<rparr>) \<and>
    (\<exists>item. html_lines (ex_quote\<lparr>html_lines := html_lines ex_quote @ [''<blockquote>q</blockquote>'', ''<ul>'', ''<li>b</li>''], in_ul := True, in_blockquote := False, blockquote_lines := []\<rparr>) =
       html_lines ex_quote @ [blockquote_html ex_quote, ''<ul>'', item])"
    using a b c modes_exclusive_steps [OF a b] by blast
  have a: "parse_loop init_state (take 1 [''> q'', ''1. b'']) = Inr ex_quote"
    by code_simp
  have b: "parse_line ex_quote ''1. b'' =
      Inr (ex_quote\<lparr>html_lines := html_lines ex_quote @ [''<blockquote>q</blockquote>'', ''<ol>'', ''<li>b</li>''], in_ol := True, in_blockquote := False, blockquote_lines := []\<rparr>)"
    by code_simp
  have c: "in_blockquote ex_quote"
    "in_ol (ex_quote\<lparr>html_lines := html_lines ex_quote @ [''<blockquote>q</blockquote>'', ''<ol>'', ''<li>b</li>''], in_ol := True, in_blockquote := False, blockquote_lines := []\<rparr>)"
    by (simp_all add: ex_quote_def)
  have i6: "parse_loop init_state (take 1 [''> q'', ''1. b'']) = Inr ex_quote \<and>
    parse_line ex_quote ''1. b'' =
      Inr (ex_quote\<lparr>html_lines := html_lines ex_quote @ [''<blockquote>q</blockquote>'', ''<ol>'', ''<li>b</li>''], in_ol := True, in_blockquote := False, blockquote_lines := []\<rparr>) \<and>
    in_blockquote ex_quote \<and>
    in_ol (ex_quote\<lparr>html_lines := html_lines ex_quote @ [''<blockquote>q</blockquote>'', ''<ol>'', ''<li>b</li>''], in_ol := True, in_blockquote := False, blockquote_lines := []\<rparr>) \<and>
    modes_exclusive ex_quote \<and>
    modes_exclusive (ex_quote\<lparr>html_lines := html_lines ex_quote @ [''<blockquote>q</blockquote>'', ''<ol>'', ''<li>b</li>''], in_ol := True, in_blockquote := False, blockquote_lines := []\<rparr>) \<and>
    (\<exists>item. html_lines (ex_quote\<lparr>html_lines := html_lines ex_quote @ [''<blockquote>q</blockquote>'', ''<ol>'', ''<li>b</li>''], in_ol := True, in_blockquote := False, blockquote_lines := []\<rparr>) =
       html_lines ex_quote @ [blockquote_html ex_quote, ''<ol>'', item])"
    using a b c modes_exclusive_steps [OF a b] by blast
  show ?thesis
    by (rule conjI [OF i1], rule conjI [OF i2], rule conjI [OF i3], rule conjI [OF i4],
        rule conjI [OF i5], rule i6)
qed

text \<open>
  C5 (amended). Inside a code fence, a line that does not start with three backticks is
  appended as \<^verbatim>\<open>escape_html(line)\<close> and nothing else changes; a line that starts with
  three backticks, with or without text after them, closes the fence and is not emitted.
  The three replacements, ampersand first, escape every character of the line once: the
  ampersands that the later replacements write are not escaped again, and an ampersand of
  the input always is, so \<^verbatim>\<open>escape_html("&")\<close> is \<^verbatim>\<open>&amp;\<close> and
  \<^verbatim>\<open>escape_html("&amp;")\<close> is \<^verbatim>\<open>&amp;amp;\<close>.
\<close>

theorem code_line_escaped:
  "(in_code_block st \<and> \<not> startswith line ''```'' \<longrightarrow>
      parse_line st line = Inr (st\<lparr>html_lines := html_lines st @ [escape_html line]\<rparr>)) \<and>
   escape_html line = concat (map spec_escape_char line) \<and>
   escape_html ''&'' = ''&amp;'' \<and> escape_html ''&amp;'' = ''&amp;amp;'' \<and>
   escape_html ''<b>'' = ''&lt;b&gt;''"
proof -
  have "escape_html ''&'' = ''&amp;''" "escape_html ''&amp;'' = ''&amp;amp;''"
    "escape_html ''<b>'' = ''&lt;b&gt;''"
    by (simp_all add: escape_html_chars spec_escape_char_def)
  then show ?thesis
    using code_line_step [of st line] escape_html_chars [of line] by blast
qed

theorem code_line_escaped_witness:
  "in_code_block (init_state\<lparr>in_code_block := True\<rparr>) \<and> \<not> startswith ''<b> & c'' ''```'' \<and>
   parse_line (init_state\<lparr>in_code_block := True\<rparr>) ''<b> & c'' =
     Inr (init_state\<lparr>in_code_block := True,
           html_lines := html_lines (init_state\<lparr>in_code_block := True\<rparr>) @ [escape_html ''<b> & c'']\<rparr>)"
proof -
  have h: "in_code_block (init_state\<lparr>in_code_block := True\<rparr>)" "\<not> startswith ''<b> & c'' ''```''"
    by (simp_all add: startswith_def)
  from code_line_escaped [of "init_state\<lparr>in_code_block := True\<rparr>" "''<b> & c''"] h
  show ?thesis by simp
qed

theorem code_fence_prefix_counterexample:
  "''```<b> & x'' \<noteq> ''```'' \<and>
   parse_line (init_state\<lparr>in_code_block := True\<rparr>) ''```<b> & x'' =
     Inr (init_state\<lparr>html_lines := [''</code></pre>'']\<rparr>) \<and>
   render_lines [''```'', ''```<b> & x'', ''y''] =
     Inr ''<pre><code>\<newline></code></pre>\<newline><p>y</p>''"
  by code_simp

text \<open>
  C6. Consecutive lines that start with \<^verbatim>\<open>> \<close> are buffered, and the buffer is to be
  flushed as one blockquote when a line without that prefix, or the end of the document,
  is reached. The loop does not do so for a fence line: the fence branch ends the turn
  before the flush that every other branch for such lines goes through. On the text
  \<^verbatim>\<open>> a\<close>, \<^verbatim>\<open>```\<close>, \<^verbatim>\<open>x\<close>, \<^verbatim>\<open>```\<close>, \<^verbatim>\<open>y\<close> the blockquote is still open after the fence
  line, and it is emitted after the code block that followed it in the input.
\<close>

theorem blockquote_fence_failing_input:
  "\<not> startswith ''```'' ''> '' \<and>
   parse_loop init_state [''> a'', ''```''] =
     Inr \<lparr>html_lines = [''<pre><code>''], in_code_block = True, in_ul = False, in_ol = False,
          in_blockquote = True, blockquote_lines = [''a'']\<rparr> \<and>
   render_lines [''> a'', ''```'', ''x'', ''```'', ''y''] =
     Inr ''<pre><code>\<newline>x\<newline></code></pre>\<newline><blockquote>a</blockquote>\<newline><p>y</p>'' \<and>
   parse_markdown ''> a\<newline>```\<newline>x\<newline>```\<newline>y'' =
     Inr ''<pre><code>\<newline>x\<newline></code></pre>\<newline><blockquote>a</blockquote>\<newline><p>y</p>''"
  by code_simp

text \<open>
  On the other paths the loop buffers and flushes as described: outside a code fence a
  line that starts with \<^verbatim>\<open>> \<close> only extends the buffer, a line that starts neither with
  \<^verbatim>\<open>> \<close> nor with three backticks first emits the buffer as one fragment (the pieces
  joined by one space) and is then handled by the remaining rules, and the cleanup at the
  end of the document emits an open buffer. The lines \<^verbatim>\<open>> line1\<close>, \<^verbatim>\<open>> line2\<close>, \<^verbatim>\<open>x\<close> give
  one blockquote \<^verbatim>\<open>line1 line2\<close> and then \<^verbatim>\<open><p>x</p>\<close>.
\<close>

lemma blockquote_flush:
  assumes "parse_loop init_state doc = Inr st"
  shows
   "(\<not> in_code_block st \<and> startswith line ''> '' \<longrightarrow>
       (\<exists>st'. parse_line st line = Inr st' \<and> in_blockquote st' \<and>
          blockquote_lines st' =
            (if in_blockquote st then blockquote_lines st else []) @
              [process_inline (drop 2 line)] \<and>
          html_lines st' = html_lines (close_lists st line))) \<and>
    (\<not> in_code_block st \<and> in_blockquote st \<and> \<not> startswith line ''> '' \<and>
     \<not> startswith line ''```'' \<longrightarrow>
       parse_line st line =
         parse_block (st\<lparr>html_lines := html_lines st @ [blockquote_html st],
                          in_blockquote := False, blockquote_lines := []\<rparr>) line) \<and>
    (in_blockquote st \<longrightarrow> html_lines (close_open st) = html_lines st @ [blockquote_html st]) \<and>
    blockquote_html st = ''<blockquote>'' @ join '' '' (blockquote_lines st) @ ''</blockquote>'' \<and>
    render_lines [''> line1'', ''> line2'', ''x''] =
      Inr ''<blockquote>line1 line2</blockquote>\<newline><p>x</p>''"
proof -
  have ex: "modes_exclusive st"
    using assms by (rule reachable_exclusive)
  have r: "render_lines [''> line1'', ''> line2'', ''x''] =
      Inr ''<blockquote>line1 line2</blockquote>\<newline><p>x</p>''"
    by code_simp
  have f: "parse_line st line =
         parse_block (st\<lparr>html_lines := html_lines st @ [blockquote_html st],
                          in_blockquote := False, blockquote_lines := []\<rparr>) line"
    if "\<not> in_code_block st" "in_blockquote st" "\<not> startswith line ''> ''"
      "\<not> startswith line ''```''"
    using quote_flush_step [OF ex that] by (simp add: emit_def)
  show ?thesis
    using quote_step [OF ex, of line] f close_open_blockquote [OF ex] r
    by (simp add: blockquote_html_def)
qed

lemma blockquote_flush_example:
  "parse_loop init_state [''> q''] = Inr ex_quote \<and>
   \<not> in_code_block ex_quote \<and> in_blockquote ex_quote \<and> startswith ''> r'' ''> '' \<and>
   \<not> startswith ''x'' ''> '' \<and> \<not> startswith ''x'' ''```'' \<and>
   (\<exists>st'. parse_line ex_quote ''> r'' = Inr st' \<and> in_blockquote st' \<and>
      blockquote_lines st' = [''q'', ''r''] \<and> html_lines st' = []) \<and>
   parse_line ex_quote ''x'' = Inr (init_state\<lparr>html_lines := [''<blockquote>q</blockquote>'', ''<p>x</p>'']\<rparr>) \<and>
   html_lines (close_open ex_quote) = [''<blockquote>q</blockquote>'']"
proof -
  have a: "parse_loop init_state [''> q''] = Inr ex_quote"
    by code_simp
  have h: "\<not> in_code_block ex_quote" "in_blockquote ex_quote" "startswith ''> r'' ''> ''"
    "\<not> startswith ''x'' ''> ''" "\<not> startswith ''x'' ''```''"
    by (simp_all add: ex_quote_def startswith_def)
  have v: "process_inline (drop 2 ''> r'') = ''r''" "close_lists ex_quote ''> r'' = ex_quote"
    "blockquote_lines ex_quote = [''q'']" "html_lines ex_quote = []"
    "blockquote_html ex_quote = ''<blockquote>q</blockquote>''"
    "parse_block (ex_quote\<lparr>html_lines := html_lines ex_quote @ [blockquote_html ex_quote],
                          in_blockquote := False, blockquote_lines := []\<rparr>) ''x'' =
     Inr (init_state\<lparr>html_lines := [''<blockquote>q</blockquote>'', ''<p>x</p>'']\<rparr>)"
    by code_simp+
  from blockquote_flush [OF a, of "''> r''"] h v
  have 1: "\<exists>st'. parse_line ex_quote ''> r'' = Inr st' \<and> in_blockquote st' \<and>
      blockquote_lines st' = [''q'', ''r''] \<and> html_lines st' = []"
    by simp
  from blockquote_flush [OF a, of "''x''"] h v
  have 2: "parse_line ex_quote ''x'' = Inr (init_state\<lparr>html_lines := [''<blockquote>q</blockquote>'', ''<p>x</p>'']\<rparr>)"
    "html_lines (close_open ex_quote) = [''<blockquote>q</blockquote>'']"
    by simp_all
  from a h 1 2 show ?thesis by blast
qed

text \<open>
  C7. Consecutive bullet lines form one list, which is to be closed before any following
  line that is no list item, and at the end of the document. The loop does not close the
  list for a fence line: the fence branch ends the turn before the checks under "Close
  lists if needed" that every other branch for such lines goes through. On the text
  \<^verbatim>\<open>- a\<close>, \<^verbatim>\<open>```\<close>, \<^verbatim>\<open>x\<close>, \<^verbatim>\<open>```\<close>, \<^verbatim>\<open>y\<close> the list is still open after the fence line, the
  code block is emitted inside it, and \<^verbatim>\<open></ul>\<close> comes after the code block.
\<close>

theorem list_fence_failing_input:
  "\<not> is_bullet ''```'' \<and>
   parse_loop init_state [''- a'', ''```''] =
     Inr \<lparr>html_lines = [''<ul>'', ''<li>a</li>'', ''<pre><code>''], in_code_block = True,
          in_ul = True, in_ol = False, in_blockquote = False, blockquote_lines = []\<rparr> \<and>
   render_lines [''- a'', ''```'', ''x'', ''```'', ''y''] =
     Inr ''<ul>\<newline><li>a</li>\<newline><pre><code>\<newline>x\<newline></code></pre>\<newline></ul>\<newline><p>y</p>'' \<and>
   parse_markdown ''- a\<newline>```\<newline>x\<newline>```\<newline>y'' =
     Inr ''<ul>\<newline><li>a</li>\<newline><pre><code>\<newline>x\<newline></code></pre>\<newline></ul>\<newline><p>y</p>''"
  by code_simp

text \<open>
  On the other paths the loop groups and closes as described: while a bullet list is open
  and the parser is outside a code fence, a bullet line appends only its \<^verbatim>\<open><li>\<close> element,
  a line that is neither a bullet line nor a fence line first appends \<^verbatim>\<open></ul>\<close> and leaves
  the list closed, and the cleanup at the end of the document closes an open list. The
  lines \<^verbatim>\<open>- a\<close>, \<^verbatim>\<open>- b\<close>, \<^verbatim>\<open>x\<close> give one \<^verbatim>\<open><ul>\<close> with two items, closed before
  \<^verbatim>\<open><p>x</p>\<close>, and the single line \<^verbatim>\<open>- only item\<close> gives a closed list.
\<close>

lemma bullet_list_grouping:
  assumes "parse_loop init_state doc = Inr st"
  shows
   "(in_ul st \<and> \<not> in_code_block st \<and> is_bullet line \<longrightarrow>
       parse_line st line =
         Inr (st\<lparr>html_lines := html_lines st @
                [''<li>'' @ process_inline (drop 2 line) @ ''</li>'']\<rparr>)) \<and>
    (in_ul st \<and> \<not> in_code_block st \<and> \<not> is_bullet line \<and> \<not> startswith line ''```'' \<longrightarrow>
       (\<exists>st' rest. parse_line st line = Inr st' \<and> \<not> in_ul st' \<and>
          html_lines st' = html_lines st @ ''</ul>'' # rest)) \<and>
    (in_ul st \<longrightarrow> html_lines (close_open st) = html_lines st @ [''</ul>'']) \<and>
    render_lines [''- a'', ''- b'', ''x''] =
      Inr ''<ul>\<newline><li>a</li>\<newline><li>b</li>\<newline></ul>\<newline><p>x</p>'' \<and>
    render_lines [''- only item''] = Inr ''<ul>\<newline><li>only item</li>\<newline></ul>''"
proof -
  have ex: "modes_exclusive st"
    using assms by (rule reachable_exclusive)
  have r: "render_lines [''- a'', ''- b'', ''x''] =
      Inr ''<ul>\<newline><li>a</li>\<newline><li>b</li>\<newline></ul>\<newline><p>x</p>''"
    "render_lines [''- only item''] = Inr ''<ul>\<newline><li>only item</li>\<newline></ul>''"
    by code_simp+
  have i: "parse_line st line =
         Inr (st\<lparr>html_lines := html_lines st @
                [''<li>'' @ process_inline (drop 2 line) @ ''</li>'']\<rparr>)"
    if "in_ul st" "\<not> in_code_block st" "is_bullet line"
    using ul_item_step [OF ex that] by (simp add: emit_def)
  show ?thesis
    using i ul_close_step [OF ex, of line] close_open_ul [OF ex] r by blast
qed

lemma bullet_list_grouping_example:
  "parse_loop init_state [''- a''] = Inr ex_ul \<and>
   in_ul ex_ul \<and> \<not> in_code_block ex_ul \<and> is_bullet ''- b'' \<and> \<not> is_bullet ''x'' \<and>
   \<not> startswith ''x'' ''```'' \<and>
   parse_line ex_ul ''- b'' = Inr (ex_ul\<lparr>html_lines := [''<ul>'', ''<li>a</li>'', ''<li>b</li>'']\<rparr>) \<and>
   (\<exists>st' rest. parse_line ex_ul ''x'' = Inr st' \<and> \<not> in_ul st' \<and>
      html_lines st' = [''<ul>'', ''<li>a</li>'', ''</ul>''] @ rest) \<and>
   html_lines (close_open ex_ul) = [''<ul>'', ''<li>a</li>'', ''</ul>'']"
proof -
  have a: "parse_loop init_state [''- a''] = Inr ex_ul"
    by code_simp
  have h: "in_ul ex_ul" "\<not> in_code_block ex_ul" "is_bullet ''- b''" "\<not> is_bullet ''x''"
    "\<not> startswith ''x'' ''```''"
    by (simp_all add: ex_ul_def startswith_def is_bullet_def)
  have v: "process_inline (drop 2 ''- b'') = ''b''" "html_lines ex_ul = [''<ul>'', ''<li>a</li>'']"
    by code_simp+
  from bullet_list_grouping [OF a, of "''- b''"] h v
  have 1: "parse_line ex_ul ''- b'' = Inr (ex_ul\<lparr>html_lines := [''<ul>'', ''<li>a</li>'', ''<li>b</li>'']\<rparr>)"
    "html_lines (close_open ex_ul) = [''<ul>'', ''<li>a</li>'', ''</ul>'']"
    by simp_all
  from bullet_list_grouping [OF a, of "''x''"] h v
  have 2: "\<exists>st' rest. parse_line ex_ul ''x'' = Inr st' \<and> \<not> in_ul st' \<and>
      html_lines st' = [''<ul>'', ''<li>a</li>'', ''</ul>''] @ rest"
    by simp
  from a h 1 2 show ?thesis by blast
qed

text \<open>
  C10. A line that starts with five \<^verbatim>\<open>#\<close> characters matches none of the four header
  prefixes, and outside a code fence it becomes a paragraph holding the inline-processed
  line (after the closing of an open list or blockquote). The single line \<^verbatim>\<open>##### T\<close> gives
  \<^verbatim>\<open><p>##### T</p>\<close>.
\<close>

theorem five_hashes_paragraph:
  "(startswith line ''#####'' \<longrightarrow>
      \<not> startswith line ''#### '' \<and> \<not> startswith line ''### '' \<and>
      \<not> startswith line ''## '' \<and> \<not> startswith line ''# '' \<and>
      (\<not> in_code_block st \<longrightarrow>
         parse_line st line =
           Inr (emit (''<p>'' @ process_inline line @ ''</p>'')
                  (flush_blockquote (close_lists st line))))) \<and>
   render_lines [''##### T''] = Inr ''<p>##### T</p>''"
proof -
  have "render_lines [''##### T''] = Inr ''<p>##### T</p>''"
    by code_simp
  then show ?thesis
    using hashes_not_header [of line] hashes_step [of line st] by blast
qed

theorem five_hashes_paragraph_witness:
  "startswith ''##### T'' ''#####'' \<and> \<not> in_code_block init_state \<and>
   \<not> startswith ''##### T'' ''#### '' \<and> \<not> startswith ''##### T'' ''# '' \<and>
   parse_line init_state ''##### T'' =
     Inr (emit (''<p>'' @ process_inline ''##### T'' @ ''</p>'')
            (flush_blockquote (close_lists init_state ''##### T'')))"
proof -
  have h: "startswith ''##### T'' ''#####''" "\<not> in_code_block init_state"
    by (simp_all add: startswith_def init_state_def)
  from five_hashes_paragraph [of "''##### T''" init_state] h show ?thesis
    by blast
qed

end
